theory Spec2Isabelle
  imports Main "HOL-Library.Sublist"
begin

section \<open>The migration runner \<open>server/scripts/run-migration.py\<close>\<close>

text \<open>
  The script is a straight-line Python program: it imports \<open>pyodbc\<close>, prints a banner,
  and inside one \<open>try\<close> block connects, reads the SQL file, splits it at the text \<open>GO\<close>,
  runs every batch under a per-batch \<open>try\<close>/\<open>except\<close>, closes the connection and prints
  the closing banner. Two handlers (\<open>except ImportError\<close>, \<open>except Exception\<close>) follow the
  outer \<open>try\<close>.

  The model has two layers. The text layer (\<open>strip\<close>, \<open>split_sep\<close>, \<open>batches\<close>) embeds
  line 39. The effect layer records, in program order, every \<open>print\<close> and every call on
  the database objects as an event; what each call answers is read from an environment,
  so that a theorem about all environments is a theorem about every connection stub.
\<close>

subsection \<open>Text: \<open>str.strip\<close>, \<open>str.split\<close>, \<open>str.startswith\<close>\<close>

text \<open>
  A script is a \<open>string\<close>; a \<open>char\<close> stands for a code point below 256. The characters
  that \<open>str.isspace\<close> accepts in that range are 9 to 13, 28 to 32, 133 and 160, and
  \<open>str.strip()\<close> removes exactly those from both ends.
\<close>

definition is_space :: "char \<Rightarrow> bool" where
  "is_space c =
     (let n = (of_char c :: nat)
      in (9 \<le> n \<and> n \<le> 13) \<or> (28 \<le> n \<and> n \<le> 32) \<or> n = 133 \<or> n = 160)"

definition lstrip :: "string \<Rightarrow> string" where
  "lstrip s = dropWhile is_space s"

definition rstrip :: "string \<Rightarrow> string" where
  "rstrip s = rev (dropWhile is_space (rev s))"

definition strip :: "string \<Rightarrow> string" where
  "strip s = rstrip (lstrip s)"

text \<open>
  \<open>s.split(sep)\<close> for a non-empty separator, given as its first character \<open>a\<close> and the
  rest \<open>as\<close>: scan from the left; where the separator starts, close the current piece
  and continue behind the separator; otherwise the character joins the current piece.
  The result always has at least one piece.
\<close>

fun split_sep :: "char \<Rightarrow> string \<Rightarrow> string \<Rightarrow> string list" where
  "split_sep a as [] = [[]]"
| "split_sep a as (c # cs) =
     (if c = a \<and> prefix as cs
      then [] # split_sep a as (drop (length as) cs)
      else (case split_sep a as cs of
              [] \<Rightarrow> [[c]]
            | p # ps \<Rightarrow> (c # p) # ps))"

definition split_GO :: "string \<Rightarrow> string list" where
  "split_GO s = split_sep (CHR ''G'') ''O'' s"

text \<open>Line 39: \<open>batches = [b.strip() for b in sql_content.split('GO') if b.strip()]\<close>.\<close>

definition batches :: "string \<Rightarrow> string list" where
  "batches sql_content = [strip b. b \<leftarrow> split_GO sql_content, strip b \<noteq> []]"

text \<open>Line 44, the guard of the loop: \<open>not batch or batch.startswith('--')\<close>.\<close>

definition startswith :: "string \<Rightarrow> string \<Rightarrow> bool" where
  "startswith s p = prefix p s"

definition skipped :: "string \<Rightarrow> bool" where
  "skipped batch = (batch = [] \<or> startswith batch ''--'')"

text \<open>
  The specification's delimiter, in its own words: the token \<open>GO\<close> on a line of its own.
  The lines of a text are its pieces between line feeds; a line counts as a delimiter
  line when it is \<open>GO\<close> once surrounding white space is removed.
\<close>

fun lines_of :: "string \<Rightarrow> string list" where
  "lines_of [] = [[]]"
| "lines_of (c # cs) =
     (if c = CHR 0x0A then [] # lines_of cs
      else (case lines_of cs of
              [] \<Rightarrow> [[c]]
            | l # ls \<Rightarrow> (c # l) # ls))"

definition standalone_delimiters :: "string \<Rightarrow> nat" where
  "standalone_delimiters s = length [l \<leftarrow> lines_of s. strip l = ''GO'']"

subsection \<open>Effects: exceptions, events, steps\<close>

text \<open>
  An exception carries the text \<open>str(e)\<close> gives. \<open>ImportError\<close> is told apart because
  the outer \<open>try\<close> has a handler of its own for it; every other exception raised by the
  modelled calls is an \<open>Exception\<close>.
\<close>

datatype exn = ImportError string | OtherException string

fun str :: "exn \<Rightarrow> string" where
  "str (ImportError m) = m"
| "str (OtherException m) = m"

fun is_import_error :: "exn \<Rightarrow> bool" where
  "is_import_error (ImportError m) = True"
| "is_import_error (OtherException m) = False"

text \<open>What the program prints; one constructor per \<open>print\<close> or block of fixed prints.\<close>

datatype msg =
    BannerRunning                 \<comment> \<open>lines 15-17\<close>
  | Connecting                    \<comment> \<open>line 30\<close>
  | ExecutingBatches nat          \<comment> \<open>line 41: \<open>Executing {len(batches)} SQL batches...\<close>\<close>
  | ExecutingBatch nat nat        \<comment> \<open>line 47: \<open>[{i}/{len(batches)}] Executing batch...\<close>\<close>
  | BatchCompleted nat            \<comment> \<open>line 54: \<open>Batch {i} completed\<close>\<close>
  | BatchError nat string         \<comment> \<open>line 56: \<open>Batch {i} error: {str(e)}\<close>\<close>
  | BannerCompleted               \<comment> \<open>lines 62-66\<close>
  | PyodbcNotInstalled            \<comment> \<open>lines 69-75\<close>
  | CopySqlFrom string            \<comment> \<open>line 76: \<open>5. Copy and paste SQL from: {SQL_FILE}\<close>\<close>
  | ClickRun                      \<comment> \<open>line 77\<close>
  | TopLevelError string          \<comment> \<open>line 79: \<open>Error: {str(e)}\<close>\<close>
  | PortalInstructions            \<comment> \<open>lines 80-83\<close>
  | SqlFileAt string              \<comment> \<open>line 84: \<open>4. SQL file: {SQL_FILE}\<close>\<close>

text \<open>The calls on the driver, the connection, the cursor and the file.\<close>

datatype call =
    Connect                       \<comment> \<open>line 31: \<open>pyodbc.connect(conn_str)\<close>\<close>
  | Cursor                        \<comment> \<open>line 32: \<open>conn.cursor()\<close>\<close>
  | ReadFile string               \<comment> \<open>lines 35-36: \<open>open(SQL_FILE, 'r')\<close>, \<open>f.read()\<close>\<close>
  | Execute string                \<comment> \<open>line 49: \<open>cursor.execute(batch)\<close>\<close>
  | Nextset                       \<comment> \<open>line 51: \<open>cursor.nextset()\<close>\<close>
  | Commit                        \<comment> \<open>line 53: \<open>conn.commit()\<close>\<close>
  | Rollback                      \<comment> \<open>line 57: \<open>conn.rollback()\<close>\<close>
  | CursorClose                   \<comment> \<open>line 59: \<open>cursor.close()\<close>\<close>
  | ConnClose                     \<comment> \<open>line 60: \<open>conn.close()\<close>\<close>

datatype event = Print msg | Call call

text \<open>
  A step is the events it produced and the exception it raised, if any. \<open>seq\<close> is
  statement sequencing: the second step runs only when the first raised nothing.
  \<open>handle\<close> is \<open>try: a except Exception as e: h e\<close>.
\<close>

type_synonym step = "event list \<times> exn option"

definition say :: "msg \<Rightarrow> step" where
  "say m = ([Print m], None)"

definition invoke :: "call \<Rightarrow> exn option \<Rightarrow> step" where
  "invoke c r = ([Call c], r)"

definition seq :: "step \<Rightarrow> step \<Rightarrow> step" where
  "seq a b = (case snd a of Some e \<Rightarrow> a | None \<Rightarrow> (fst a @ fst b, snd b))"

definition handle :: "step \<Rightarrow> (exn \<Rightarrow> step) \<Rightarrow> step" where
  "handle a h = (case snd a of None \<Rightarrow> a | Some e \<Rightarrow> (fst a @ fst (h e), snd (h e)))"

subsection \<open>The connection stub and the environment\<close>

text \<open>
  What the database answers while one batch is run: whether \<open>execute\<close> raises, how many
  further result sets \<open>nextset\<close> reports (each a call that returns true) before its last
  call, whether that last call raises (otherwise it returns false and the \<open>while\<close> ends),
  and whether \<open>commit\<close> and \<open>rollback\<close> raise. A cursor holds finitely many pending
  result sets, so the drain loop is a recursion on their number.
\<close>

record batch_behaviour =
  execute_raises :: "exn option"
  more_sets :: nat
  nextset_raises :: "exn option"
  commit_raises :: "exn option"
  rollback_raises :: "exn option"

text \<open>
  The environment of one run. \<open>batch_stub i\<close> is the behaviour met by the batch with
  loop index \<open>i\<close>; each index is run at most once, so this covers every stateful stub.
\<close>

record env =
  import_pyodbc :: "exn option"
  connect_raises :: "exn option"
  cursor_raises :: "exn option"
  read_file :: "exn + string"
  batch_stub :: "nat \<Rightarrow> batch_behaviour"
  cursor_close_raises :: "exn option"
  conn_close_raises :: "exn option"

definition SQL_FILE :: string where
  "SQL_FILE = ''/home/balaraj/HealthMesh/server/db/migrations/fix-production-schema.sql''"

subsection \<open>The batch loop (lines 43-57)\<close>

text \<open>Lines 51-52: \<open>while cursor.nextset(): pass\<close>.\<close>

fun drain :: "nat \<Rightarrow> exn option \<Rightarrow> step" where
  "drain 0 final = invoke Nextset final"
| "drain (Suc k) final = seq (invoke Nextset None) (drain k final)"

text \<open>Lines 49-54, the body of the per-batch \<open>try\<close>: execute, drain, commit, report.\<close>

definition batch_body :: "nat \<Rightarrow> string \<Rightarrow> batch_behaviour \<Rightarrow> step" where
  "batch_body i batch bb =
     seq (invoke (Execute batch) (execute_raises bb))
    (seq (drain (more_sets bb) (nextset_raises bb))
    (seq (invoke Commit (commit_raises bb))
         (say (BatchCompleted i))))"

text \<open>Lines 55-57, \<open>except Exception as e\<close>: report the error text, roll back.\<close>

definition batch_handler :: "nat \<Rightarrow> batch_behaviour \<Rightarrow> exn \<Rightarrow> step" where
  "batch_handler i bb e =
     seq (say (BatchError i (str e))) (invoke Rollback (rollback_raises bb))"

text \<open>Lines 47-57, one batch that passed the guard; \<open>n\<close> is \<open>len(batches)\<close>.\<close>

definition run_batch :: "nat \<Rightarrow> nat \<Rightarrow> string \<Rightarrow> batch_behaviour \<Rightarrow> step" where
  "run_batch n i batch bb =
     seq (say (ExecutingBatch i n))
         (handle (batch_body i batch bb) (batch_handler i bb))"

text \<open>
  Lines 43-57: \<open>for i, batch in enumerate(batches, 1)\<close>. An exception that leaves
  \<open>run_batch\<close> (one raised by \<open>rollback\<close> inside the handler) ends the loop.
\<close>

fun run_loop :: "nat \<Rightarrow> (nat \<Rightarrow> batch_behaviour) \<Rightarrow> (nat \<times> string) list \<Rightarrow> step" where
  "run_loop n stub [] = ([], None)"
| "run_loop n stub ((i, batch) # rest) =
     (if skipped batch then run_loop n stub rest
      else seq (run_batch n i batch (stub i)) (run_loop n stub rest))"

subsection \<open>The whole program\<close>

text \<open>Lines 59-66, after the loop: close the cursor and the connection, print the banner.\<close>

definition finish :: "env \<Rightarrow> step" where
  "finish E =
     seq (invoke CursorClose (cursor_close_raises E))
    (seq (invoke ConnClose (conn_close_raises E))
         (say BannerCompleted))"

text \<open>Lines 30-66, the body of the outer \<open>try\<close>.\<close>

definition try_body :: "env \<Rightarrow> step" where
  "try_body E =
     seq (say Connecting)
    (seq (invoke Connect (connect_raises E))
    (seq (invoke Cursor (cursor_raises E))
    (case read_file E of
       Inl e \<Rightarrow> invoke (ReadFile SQL_FILE) (Some e)
     | Inr sql_content \<Rightarrow>
         seq (invoke (ReadFile SQL_FILE) None)
        (seq (say (ExecutingBatches (length (batches sql_content))))
        (seq (run_loop (length (batches sql_content)) (batch_stub E)
                (enumerate 1 (batches sql_content)))
             (finish E))))))"

text \<open>Lines 68-84, the two handlers of the outer \<open>try\<close>, in the order Python tries them.\<close>

definition top_handler :: "exn \<Rightarrow> step" where
  "top_handler e =
     (if is_import_error e
      then seq (say PyodbcNotInstalled) (seq (say (CopySqlFrom SQL_FILE)) (say ClickRun))
      else seq (say (TopLevelError (str e))) (seq (say PortalInstructions) (say (SqlFileAt SQL_FILE))))"

text \<open>
  The program. \<open>import pyodbc\<close> (line 5) stands before the outer \<open>try\<close> (line 19): an
  exception it raises is handled by nobody, and the interpreter ends with a traceback
  before anything is printed. The step's exception is the unhandled one.
\<close>

definition program :: "env \<Rightarrow> step" where
  "program E =
     (case import_pyodbc E of
        Some e \<Rightarrow> ([], Some e)
      | None \<Rightarrow> seq (say BannerRunning) (handle (try_body E) top_handler))"

subsection \<open>Reading a run\<close>

text \<open>
  The run summary of the specification, read off the printed lines: a batch
  succeeded when \<open>Batch i completed\<close> was printed, failed when \<open>Batch i error: ...\<close> was.
\<close>

datatype batch_result = Succeeded nat | Failed nat string

fun results :: "event list \<Rightarrow> batch_result list" where
  "results [] = []"
| "results (Print (BatchCompleted i) # t) = Succeeded i # results t"
| "results (Print (BatchError i m) # t) = Failed i m # results t"
| "results (ev # t) = results t"

text \<open>The result one batch ends with: failed with the text of what its \<open>try\<close> body raised.\<close>

definition batch_outcome :: "nat \<Rightarrow> string \<Rightarrow> batch_behaviour \<Rightarrow> batch_result" where
  "batch_outcome i batch bb =
     (case snd (batch_body i batch bb) of
        None \<Rightarrow> Succeeded i
      | Some e \<Rightarrow> Failed i (str e))"

text \<open>The indices announced by \<open>[i/n] Executing batch...\<close> and the texts handed to \<open>execute\<close>.\<close>

fun attempted :: "event list \<Rightarrow> nat list" where
  "attempted [] = []"
| "attempted (Print (ExecutingBatch i n) # t) = i # attempted t"
| "attempted (ev # t) = attempted t"

fun executed :: "event list \<Rightarrow> string list" where
  "executed [] = []"
| "executed (Call (Execute b) # t) = b # executed t"
| "executed (ev # t) = executed t"

definition calls :: "call \<Rightarrow> event list \<Rightarrow> nat" where
  "calls c t = count_list t (Call c)"

definition printed :: "msg \<Rightarrow> event list \<Rightarrow> bool" where
  "printed m t = (Print m \<in> set t)"

text \<open>
  What every run that gets as far as the loop prints and calls first (lines 15-41);
  \<open>n\<close> is \<open>len(batches)\<close>.
\<close>

definition preamble :: "nat \<Rightarrow> event list" where
  "preamble n =
     [Print BannerRunning, Print Connecting, Call Connect, Call Cursor,
      Call (ReadFile SQL_FILE), Print (ExecutingBatches n)]"

subsection \<open>Concrete stubs and scripts\<close>

text \<open>A batch on which every call succeeds and no further result set is pending.\<close>

definition succeeding :: batch_behaviour where
  "succeeding =
     \<lparr>execute_raises = None, more_sets = 0, nextset_raises = None,
      commit_raises = None, rollback_raises = None\<rparr>"

text \<open>
  An environment in which the driver is installed, the connection opens, the file
  holds \<open>S\<close>, both \<open>close\<close> calls succeed, and the batches behave as \<open>stub\<close> says.
\<close>

definition stub_env :: "string \<Rightarrow> (nat \<Rightarrow> batch_behaviour) \<Rightarrow> env" where
  "stub_env S stub =
     \<lparr>import_pyodbc = None, connect_raises = None, cursor_raises = None,
      read_file = Inr S, batch_stub = stub,
      cursor_close_raises = None, conn_close_raises = None\<rparr>"

definition boom :: exn where
  "boom = OtherException ''Invalid object name''"

text \<open>A stub whose \<open>execute\<close> raises on the batch with index \<open>k\<close> and nowhere else.\<close>

definition fails_at :: "nat \<Rightarrow> nat \<Rightarrow> batch_behaviour" where
  "fails_at k i = (if i = k then succeeding\<lparr>execute_raises := Some boom\<rparr> else succeeding)"

text \<open>A script of one statement followed by a trailing comment fragment.\<close>

definition script_with_note :: string where
  "script_with_note = ''DROP TABLE t;\<newline>GO\<newline>-- done\<newline>''"

text \<open>A script whose first fragment is a comment, followed by two statements.\<close>

definition script_with_header :: string where
  "script_with_header = ''-- fix\<newline>GO\<newline>UPDATE t SET x = 1\<newline>GO\<newline>SELECT 1\<newline>''"

text \<open>A script with no line of its own holding \<open>GO\<close>, but the letters inside a name.\<close>

definition script_category :: string where
  "script_category = ''SELECT 1 FROM CATEGORY''"

text \<open>Three plain statements.\<close>

definition script_three :: string where
  "script_three = ''CREATE TABLE t(x int);\<newline>GO\<newline>INSERT INTO t VALUES(1);\<newline>GO\<newline>SELECT 1\<newline>''"

text \<open>The driver is not installed: \<open>import pyodbc\<close> raises.\<close>

definition env_no_pyodbc :: env where
  "env_no_pyodbc =
     (stub_env script_three (\<lambda>i. succeeding))
       \<lparr>import_pyodbc := Some (ImportError ''No module named pyodbc'')\<rparr>"

text \<open>The connection opens, then the script file cannot be read.\<close>

definition env_no_file :: env where
  "env_no_file =
     (stub_env [] (\<lambda>i. succeeding))
       \<lparr>read_file := Inl (OtherException ''No such file or directory'')\<rparr>"

text \<open>
  A stub whose \<open>execute\<close> raises on the batch with index \<open>k\<close> and whose \<open>rollback\<close>
  then raises too (the connection is gone).
\<close>

definition rollback_fails_at :: "nat \<Rightarrow> nat \<Rightarrow> batch_behaviour" where
  "rollback_fails_at k i =
     (if i = k
      then succeeding\<lparr>execute_raises := Some boom,
                      rollback_raises := Some (OtherException ''Communication link failure'')\<rparr>
      else succeeding)"

text \<open>A single batch whose \<open>execute\<close> succeeds and whose drain raises.\<close>

definition drain_fails :: batch_behaviour where
  "drain_fails = succeeding\<lparr>more_sets := 1, nextset_raises := Some boom\<rparr>"

text \<open>A stub whose drain raises on the batch with index \<open>k\<close> and nowhere else.\<close>

definition drain_fails_at :: "nat \<Rightarrow> nat \<Rightarrow> batch_behaviour" where
  "drain_fails_at k i = (if i = k then drain_fails else succeeding)"

text \<open>A print-style statement followed by a plain one.\<close>

definition script_print :: string where
  "script_print = ''PRINT 1\<newline>GO\<newline>SELECT 1\<newline>''"

section \<open>Facts about the text layer\<close>

lemma lstrip_Nil: "lstrip [] = []"
  by (simp add: lstrip_def)

lemma rstrip_Nil: "rstrip [] = []"
  by (simp add: rstrip_def)

lemma lstrip_Cons_nonspace: "\<not> is_space x \<Longrightarrow> lstrip (x # t) = x # t"
  by (simp add: lstrip_def)

lemma rstrip_Cons_nonspace: "\<not> is_space x \<Longrightarrow> rstrip (x # t) = x # rstrip t"
  by (simp add: rstrip_def dropWhile_append)

lemma lstrip_cases: "lstrip s = [] \<or> (\<exists>x t. lstrip s = x # t \<and> \<not> is_space x)"
  unfolding lstrip_def
  by (cases "dropWhile is_space s") (auto dest: dropWhile_eq_Cons_conv[THEN iffD1])

lemma rstrip_idem: "rstrip (rstrip s) = rstrip s"
  by (simp add: rstrip_def)

text \<open>What \<open>strip\<close> returns has no white space left at its front.\<close>

lemma lstrip_strip: "lstrip (strip s) = strip s"
proof -
  from lstrip_cases[of s] show ?thesis
  proof
    assume "lstrip s = []"
    then show ?thesis by (simp add: strip_def rstrip_Nil lstrip_Nil)
  next
    assume "\<exists>x t. lstrip s = x # t \<and> \<not> is_space x"
    then obtain x t where "lstrip s = x # t" "\<not> is_space x" by blast
    then show ?thesis by (simp add: strip_def rstrip_Cons_nonspace lstrip_Cons_nonspace)
  qed
qed

lemma strip_idem: "strip (strip s) = strip s"
proof -
  have "strip (strip s) = rstrip (strip s)"
    by (simp add: strip_def[of "strip s"] lstrip_strip)
  also have "\<dots> = strip s"
    by (simp add: strip_def rstrip_idem)
  finally show ?thesis .
qed

lemma sublist_strip: "sublist (strip s) s"
proof -
  have "sublist (rstrip (lstrip s)) (lstrip s)"
    unfolding rstrip_def by (metis sublist_dropWhile sublist_rev_left)
  moreover have "sublist (lstrip s) s"
    by (simp add: lstrip_def)
  ultimately show ?thesis
    unfolding strip_def by (rule sublist_order.order_trans)
qed

lemma split_sep_nonempty: "split_sep a as s \<noteq> []"
  by (induction a as s rule: split_sep.induct) (auto split: list.splits)

lemma hd_split_sep_prefix: "prefix (hd (split_sep a as s)) s"
  by (induction a as s rule: split_sep.induct) (auto split: list.splits)

text \<open>Without an occurrence of the separator nothing is cut.\<close>

lemma split_sep_no_sep: "\<not> sublist (a # as) s \<Longrightarrow> split_sep a as s = [s]"
  by (induction s) (auto simp: sublist_Cons_right split: list.splits)

text \<open>No piece contains the separator: each piece ends where its first occurrence starts.\<close>

lemma split_sep_pieces: "p \<in> set (split_sep a as s) \<Longrightarrow> \<not> sublist (a # as) p"
proof (induction a as s arbitrary: p rule: split_sep.induct)
  case (1 a as)
  then show ?case by simp
next
  case (2 a as c cs)
  show ?case
  proof (cases "c = a \<and> prefix as cs")
    case True
    with 2 show ?thesis by auto
  next
    case False
    obtain q qs where q: "split_sep a as cs = q # qs"
      using split_sep_nonempty[of a as cs] by (cases "split_sep a as cs") auto
    from False q "2.prems" have "p = c # q \<or> p \<in> set qs" by auto
    then show ?thesis
    proof
      assume p: "p = c # q"
      have "prefix q cs" using hd_split_sep_prefix[of a as cs] q by simp
      then have "\<not> prefix (a # as) (c # q)"
        using False by (auto dest: prefix_order.trans)
      moreover have "\<not> sublist (a # as) q"
        using "2.IH"(2)[OF False, of q] q by simp
      ultimately show ?thesis using p by (simp add: sublist_Cons_right)
    next
      assume "p \<in> set qs"
      then show ?thesis using "2.IH"(2)[OF False, of p] q by simp
    qed
  qed
qed

lemma batches_trimmed: "b \<in> set (batches s) \<Longrightarrow> b \<noteq> [] \<and> strip b = b"
  by (auto simp: batches_def strip_idem)

lemma batches_fixed: "b \<in> set (batches s) \<Longrightarrow> batches b = [b]"
proof -
  assume "b \<in> set (batches s)"
  then obtain p where p: "p \<in> set (split_GO s)" "b = strip p" "strip p \<noteq> []"
    by (auto simp: batches_def)
  have "\<not> sublist ''GO'' p" using p(1) split_sep_pieces unfolding split_GO_def by blast
  then have "\<not> sublist ''GO'' b"
    using sublist_strip[of p] p(2) sublist_order.order_trans by blast
  then have "split_GO b = [b]" unfolding split_GO_def by (rule split_sep_no_sep)
  then show ?thesis using p by (simp add: batches_def strip_idem)
qed

lemma concat_singletons: "(\<And>x. x \<in> set xs \<Longrightarrow> f x = [x]) \<Longrightarrow> concat (map f xs) = xs"
  by (induction xs) simp_all

lemma skipped_batches: "b \<in> set (batches s) \<Longrightarrow> skipped b = startswith b ''--''"
  by (auto simp: skipped_def dest: batches_trimmed)

text \<open>The first occurrence of \<open>GO\<close> closes the first piece, wherever it stands.\<close>

lemma split_GO_first:
  "\<not> sublist ''GO'' (p @ ''G'') \<Longrightarrow> split_GO (p @ ''GO'' @ r) = p # split_GO r"
  unfolding split_GO_def
proof (induction p)
  case Nil
  show ?case by simp
next
  case (Cons c p)
  then show ?case
    by (cases p) (auto simp: sublist_Cons_right)
qed

section \<open>The splitter\<close>

text \<open>
  Claim C3, as amended. The splitter does not look for \<open>GO\<close> on a line of its own: it
  cuts at every literal, case-sensitive occurrence of the two characters \<open>GO\<close>, found
  from the left, wherever they stand. So the text \<open>p\<close> before the first occurrence is
  the first piece and splitting goes on behind that occurrence; and a script in which
  the characters \<open>GO\<close> occur nowhere and whose trimmed content is not empty yields
  exactly one batch, its trimmed text.
\<close>

theorem split_at_literal_GO:
  "(\<not> sublist ''GO'' (p @ ''G'') \<longrightarrow> split_GO (p @ ''GO'' @ r) = p # split_GO r) \<and>
   (\<not> sublist ''GO'' S \<and> strip S \<noteq> [] \<longrightarrow> batches S = [strip S])"
proof (intro conjI impI)
  assume "\<not> sublist ''GO'' (p @ ''G'')"
  then show "split_GO (p @ ''GO'' @ r) = p # split_GO r"
    by (rule split_GO_first)
next
  assume "\<not> sublist ''GO'' S \<and> strip S \<noteq> []"
  then show "batches S = [strip S]"
    by (simp add: batches_def split_GO_def split_sep_no_sep)
qed

theorem split_at_literal_GO_witness:
  "\<not> sublist ''GO'' (''SELECT 1'' @ ''G'') \<and>
   split_GO (''SELECT 1'' @ ''GO'' @ ''SELECT 2'') = ''SELECT 1'' # split_GO ''SELECT 2'' \<and>
   \<not> sublist ''GO'' '' SELECT 1; '' \<and> strip '' SELECT 1; '' \<noteq> [] \<and>
   batches '' SELECT 1; '' = [''SELECT 1;'']"
proof -
  have h1: "\<not> sublist ''GO'' (''SELECT 1'' @ ''G'')"
    by (simp add: sublist_Cons_right)
  have h2: "\<not> sublist ''GO'' '' SELECT 1; ''"
    by (simp add: sublist_Cons_right)
  have h3: "strip '' SELECT 1; '' = ''SELECT 1;''"
    by (simp add: strip_def lstrip_def rstrip_def is_space_def)
  from split_at_literal_GO[of "''SELECT 1''" "''SELECT 2''" "'' SELECT 1; ''"] h1 h2 h3
  show ?thesis by simp
qed

text \<open>
  Claim C3 as stated fails: \<open>SELECT 1 FROM CATEGORY\<close> has no delimiter line and is not
  blank, yet it is cut in two inside the name.
\<close>

theorem standalone_split_counterexample:
  "standalone_delimiters script_category = 0 \<and> strip script_category \<noteq> [] \<and>
   batches script_category = [''SELECT 1 FROM CATE'', ''RY''] \<and>
   batches script_category \<noteq> [strip script_category]"
  by (simp add: script_category_def standalone_delimiters_def batches_def split_GO_def
        strip_def lstrip_def rstrip_def is_space_def)

text \<open>
  Claim C8. The batch list is a function of the script text alone, as line 39 reads
  nothing else, so splitting the same text twice gives the same ordered batches; and
  splitting is idempotent on its own output: splitting every batch again and joining
  the results gives back the batch list unchanged.
\<close>

theorem splitting_idempotent:
  "batches s = batches s \<and> concat (map batches (batches s)) = batches s"
  by (simp add: concat_singletons batches_fixed)

text \<open>
  Claim C9. Every batch handed to the loop is non-empty and is its own trimmed form,
  so the guard of line 44 skips a batch exactly when it starts with \<open>--\<close>: its
  \<open>not batch\<close> half never decides.
\<close>

theorem batches_pass_empty_guard:
  "\<forall>b \<in> set (batches s). b \<noteq> [] \<and> strip b = b \<and> (skipped b \<longleftrightarrow> startswith b ''--'')"
  using batches_trimmed skipped_batches by blast

theorem batches_pass_empty_guard_witness:
  "''-- done'' \<in> set (batches script_with_note) \<and> ''-- done'' \<noteq> [] \<and>
   strip ''-- done'' = ''-- done'' \<and> skipped ''-- done'' \<and> startswith ''-- done'' ''--''"
proof -
  have m: "''-- done'' \<in> set (batches script_with_note)"
    by (simp add: script_with_note_def batches_def split_GO_def strip_def lstrip_def
          rstrip_def is_space_def)
  have s: "startswith ''-- done'' ''--''"
    by (simp add: startswith_def)
  from batches_pass_empty_guard[of script_with_note] m s show ?thesis by blast
qed

section \<open>Facts about steps, batches and the loop\<close>

lemma seq_None: "seq (t, None) b = (t @ fst b, snd b)"
  by (simp add: seq_def)

lemma seq_Some: "seq (t, Some e) b = (t, Some e)"
  by (simp add: seq_def)

lemma seq_ok: "snd a = None \<Longrightarrow> seq a b = (fst a @ fst b, snd b)"
  by (simp add: seq_def)

lemma seq_raise: "snd a = Some e \<Longrightarrow> seq a b = a"
  by (simp add: seq_def)

lemma handle_ok: "snd a = None \<Longrightarrow> handle a h = a"
  by (simp add: handle_def)

lemma handle_raise: "snd a = Some e \<Longrightarrow> handle a h = (fst a @ fst (h e), snd (h e))"
  by (simp add: handle_def)

lemma drain_eq: "drain k r = (replicate (Suc k) (Call Nextset), r)"
  by (induction k) (simp_all add: invoke_def seq_def)

lemma results_append: "results (xs @ ys) = results xs @ results ys"
  by (induction xs rule: results.induct) simp_all

lemma attempted_append: "attempted (xs @ ys) = attempted xs @ attempted ys"
  by (induction xs rule: attempted.induct) simp_all

lemma executed_append: "executed (xs @ ys) = executed xs @ executed ys"
  by (induction xs rule: executed.induct) simp_all

lemma calls_append: "calls c (xs @ ys) = calls c xs + calls c ys"
  by (simp add: calls_def)

lemma results_nextsets: "results (replicate k (Call Nextset)) = []"
  by (induction k) simp_all

lemma attempted_nextsets: "attempted (replicate k (Call Nextset)) = []"
  by (induction k) simp_all

lemma executed_nextsets: "executed (replicate k (Call Nextset)) = []"
  by (induction k) simp_all

lemma calls_nextsets: "c \<noteq> Nextset \<Longrightarrow> calls c (replicate k (Call Nextset)) = 0"
  by (induction k) (simp_all add: calls_def)

text \<open>The per-batch try body in closed form.\<close>

lemma batch_body_eq:
  "batch_body i b bb =
     (case execute_raises bb of
        Some e \<Rightarrow> ([Call (Execute b)], Some e)
      | None \<Rightarrow>
         (case nextset_raises bb of
            Some e \<Rightarrow> (Call (Execute b) # replicate (Suc (more_sets bb)) (Call Nextset), Some e)
          | None \<Rightarrow>
             (case commit_raises bb of
                Some e \<Rightarrow> (Call (Execute b) # replicate (Suc (more_sets bb)) (Call Nextset) @ [Call Commit], Some e)
              | None \<Rightarrow> (Call (Execute b) # replicate (Suc (more_sets bb)) (Call Nextset) @ [Call Commit, Print (BatchCompleted i)], None))))"
  by (simp add: batch_body_def drain_eq invoke_def say_def seq_def split: option.splits)

lemma results_body: "results (fst (batch_body i b bb)) = (if snd (batch_body i b bb) = None then [Succeeded i] else [])"
  by (simp add: batch_body_eq results_append results_nextsets split: option.splits)

lemma attempted_body: "attempted (fst (batch_body i b bb)) = []"
  by (simp add: batch_body_eq attempted_append attempted_nextsets split: option.splits)

lemma executed_body: "executed (fst (batch_body i b bb)) = [b]"
  by (simp add: batch_body_eq executed_append executed_nextsets split: option.splits)

lemma rollbacks_body: "calls Rollback (fst (batch_body i b bb)) = 0"
  by (simp add: batch_body_eq calls_append calls_nextsets split: option.splits) (simp add: calls_def)

lemma run_batch_ok:
  "snd (batch_body i b bb) = None \<Longrightarrow>
   run_batch n i b bb = (Print (ExecutingBatch i n) # fst (batch_body i b bb), None)"
  by (simp add: run_batch_def handle_ok say_def seq_def)

lemma run_batch_failed:
  "snd (batch_body i b bb) = Some e \<Longrightarrow>
   run_batch n i b bb =
     (Print (ExecutingBatch i n) # fst (batch_body i b bb) @ [Print (BatchError i (str e)), Call Rollback],
      rollback_raises bb)"
  by (simp add: run_batch_def handle_raise batch_handler_def say_def invoke_def seq_def)

lemma snd_run_batch:
  "snd (run_batch n i b bb) = (case snd (batch_body i b bb) of None \<Rightarrow> None | Some e \<Rightarrow> rollback_raises bb)"
  by (cases "snd (batch_body i b bb)") (simp_all add: run_batch_ok run_batch_failed)

lemma results_run_batch: "results (fst (run_batch n i b bb)) = [batch_outcome i b bb]"
  by (cases "snd (batch_body i b bb)")
     (simp_all add: run_batch_ok run_batch_failed results_append results_body batch_outcome_def)

lemma attempted_run_batch: "attempted (fst (run_batch n i b bb)) = [i]"
  by (cases "snd (batch_body i b bb)")
     (simp_all add: run_batch_ok run_batch_failed attempted_append attempted_body)

lemma executed_run_batch: "executed (fst (run_batch n i b bb)) = [b]"
  by (cases "snd (batch_body i b bb)")
     (simp_all add: run_batch_ok run_batch_failed executed_append executed_body)

text \<open>The loop, when no rollback raises.\<close>

lemma run_loop_Cons_ok:
  "snd (run_batch n i b (stub i)) = None \<Longrightarrow>
   run_loop n stub ((i, b) # ps) =
     (if skipped b then run_loop n stub ps
      else (fst (run_batch n i b (stub i)) @ fst (run_loop n stub ps), snd (run_loop n stub ps)))"
  by (simp add: seq_ok)

lemma run_batch_no_raise:
  "rollback_raises bb = None \<Longrightarrow> snd (run_batch n i b bb) = None"
  by (simp add: snd_run_batch split: option.splits)

lemma run_loop_ok:
  "\<forall>p\<in>set ps. rollback_raises (stub (fst p)) = None \<Longrightarrow> snd (run_loop n stub ps) = None"
  by (induction ps) (auto simp: seq_ok run_batch_no_raise)

lemma results_run_loop:
  "\<forall>p\<in>set ps. rollback_raises (stub (fst p)) = None \<Longrightarrow>
   results (fst (run_loop n stub ps)) = [batch_outcome i b (stub i). (i, b) \<leftarrow> ps, \<not> skipped b]"
  by (induction ps) (auto simp: seq_ok run_batch_no_raise results_append results_run_batch)

lemma attempted_run_loop:
  "\<forall>p\<in>set ps. rollback_raises (stub (fst p)) = None \<Longrightarrow>
   attempted (fst (run_loop n stub ps)) = [i. (i, b) \<leftarrow> ps, \<not> skipped b]"
  by (induction ps) (auto simp: seq_ok run_batch_no_raise attempted_append attempted_run_batch)

lemma executed_run_loop:
  "\<forall>p\<in>set ps. rollback_raises (stub (fst p)) = None \<Longrightarrow>
   executed (fst (run_loop n stub ps)) = [b. (i, b) \<leftarrow> ps, \<not> skipped b]"
  by (induction ps) (auto simp: seq_ok run_batch_no_raise executed_append executed_run_batch)

lemma run_loop_contains:
  "\<forall>p\<in>set ps. rollback_raises (stub (fst p)) = None \<Longrightarrow>
   (k, c) \<in> set ps \<Longrightarrow> \<not> skipped c \<Longrightarrow>
   sublist (fst (run_batch n k c (stub k))) (fst (run_loop n stub ps))"
proof (induction ps)
  case Nil
  then show ?case by simp
next
  case (Cons p ps)
  obtain i b where p: "p = (i, b)" by (cases p)
  have ok: "snd (run_batch n i b (stub i)) = None"
    using Cons.prems(1) p by (simp add: run_batch_no_raise)
  show ?case
  proof (cases "(k, c) = (i, b)")
    case True
    then show ?thesis using ok p Cons.prems(3) by (simp add: seq_ok)
  next
    case False
    then have "(k, c) \<in> set ps" using Cons.prems(2) p by auto
    then have "sublist (fst (run_batch n k c (stub k))) (fst (run_loop n stub ps))"
      using Cons by simp
    moreover have "sublist (fst (run_loop n stub ps)) (fst (run_loop n stub (p # ps)))"
      using ok p by (simp add: seq_ok)
    ultimately show ?thesis by (rule sublist_order.order_trans)
  qed
qed


text \<open>The program around the loop.\<close>

lemma snd_top_handler: "snd (top_handler e) = None"
  by (simp add: top_handler_def say_def seq_def)

lemma program_reaches_loop:
  assumes "import_pyodbc E = None" "connect_raises E = None" "cursor_raises E = None"
    and "read_file E = Inr S"
  shows "program E =
     (preamble (length (batches S)) @
      fst (handle (seq (run_loop (length (batches S)) (batch_stub E) (enumerate 1 (batches S)))
                       (finish E)) top_handler),
      None)"
  using assms
  by (simp add: program_def try_body_def preamble_def say_def invoke_def seq_def handle_def
        snd_top_handler split: option.splits)

lemma finish_ok:
  "cursor_close_raises E = None \<Longrightarrow> conn_close_raises E = None \<Longrightarrow>
   finish E = ([Call CursorClose, Call ConnClose, Print BannerCompleted], None)"
  by (simp add: finish_def say_def invoke_def seq_def)

lemma program_completed:
  assumes "import_pyodbc E = None" "connect_raises E = None" "cursor_raises E = None"
    and "read_file E = Inr S"
    and "cursor_close_raises E = None" "conn_close_raises E = None"
    and "snd (run_loop (length (batches S)) (batch_stub E) (enumerate 1 (batches S))) = None"
  shows "program E =
     (preamble (length (batches S)) @
      fst (run_loop (length (batches S)) (batch_stub E) (enumerate 1 (batches S))) @
      [Call CursorClose, Call ConnClose, Print BannerCompleted],
      None)"
  using assms by (simp add: program_reaches_loop finish_ok seq_ok handle_ok)

lemma program_aborted:
  assumes "import_pyodbc E = None" "connect_raises E = None" "cursor_raises E = None"
    and "read_file E = Inr S"
    and "snd (run_loop (length (batches S)) (batch_stub E) (enumerate 1 (batches S))) = Some e"
  shows "program E =
     (preamble (length (batches S)) @
      fst (run_loop (length (batches S)) (batch_stub E) (enumerate 1 (batches S))) @
      fst (top_handler e),
      None)"
  using assms by (simp add: program_reaches_loop seq_raise handle_raise)

lemma results_preamble: "results (preamble n) = []"
  by (simp add: preamble_def)

lemma attempted_preamble: "attempted (preamble n) = []"
  by (simp add: preamble_def)

lemma executed_preamble: "executed (preamble n) = []"
  by (simp add: preamble_def)

lemma results_top_handler: "results (fst (top_handler e)) = []"
  by (simp add: top_handler_def say_def seq_def)

lemma attempted_top_handler: "attempted (fst (top_handler e)) = []"
  by (simp add: top_handler_def say_def seq_def)


lemma results_finish: "results (fst (finish E)) = []"
  by (cases "cursor_close_raises E"; cases "conn_close_raises E")
     (simp_all add: finish_def say_def invoke_def seq_def)

lemma attempted_finish: "attempted (fst (finish E)) = []"
  by (cases "cursor_close_raises E"; cases "conn_close_raises E")
     (simp_all add: finish_def say_def invoke_def seq_def)

lemma executed_finish: "executed (fst (finish E)) = []"
  by (cases "cursor_close_raises E"; cases "conn_close_raises E")
     (simp_all add: finish_def say_def invoke_def seq_def)

lemma executed_top_handler: "executed (fst (top_handler e)) = []"
  by (simp add: top_handler_def say_def seq_def)

lemma calls_finish: "c \<noteq> CursorClose \<Longrightarrow> c \<noteq> ConnClose \<Longrightarrow> calls c (fst (finish E)) = 0"
  by (cases "cursor_close_raises E"; cases "conn_close_raises E")
     (simp_all add: finish_def say_def invoke_def seq_def calls_def)

lemma calls_top_handler: "calls c (fst (top_handler e)) = 0"
  by (simp add: top_handler_def say_def seq_def calls_def)

lemma calls_preamble: "c \<noteq> Connect \<Longrightarrow> c \<noteq> Cursor \<Longrightarrow> c \<noteq> ReadFile SQL_FILE \<Longrightarrow> calls c (preamble n) = 0"
  by (simp add: preamble_def calls_def)

lemma fst_seq_cases: "fst (seq a b) = (if snd a = None then fst a @ fst b else fst a)"
  by (auto simp: seq_def split: option.splits)

lemma fst_handle_cases: "fst (handle a h) = (case snd a of None \<Rightarrow> fst a | Some e \<Rightarrow> fst a @ fst (h e))"
  by (auto simp: handle_def split: option.splits)

text \<open>What is read off a run that reaches the loop is read off the loop alone.\<close>

lemma results_program:
  assumes "import_pyodbc E = None" "connect_raises E = None" "cursor_raises E = None"
    and "read_file E = Inr S"
  shows "results (fst (program E)) =
         results (fst (run_loop (length (batches S)) (batch_stub E) (enumerate 1 (batches S))))"
  by (simp add: program_reaches_loop[OF assms] results_append results_preamble fst_handle_cases
        fst_seq_cases results_top_handler results_finish split: option.splits)

lemma attempted_program:
  assumes "import_pyodbc E = None" "connect_raises E = None" "cursor_raises E = None"
    and "read_file E = Inr S"
  shows "attempted (fst (program E)) =
         attempted (fst (run_loop (length (batches S)) (batch_stub E) (enumerate 1 (batches S))))"
  by (simp add: program_reaches_loop[OF assms] attempted_append attempted_preamble fst_handle_cases
        fst_seq_cases attempted_top_handler attempted_finish split: option.splits)

lemma executed_program:
  assumes "import_pyodbc E = None" "connect_raises E = None" "cursor_raises E = None"
    and "read_file E = Inr S"
  shows "executed (fst (program E)) =
         executed (fst (run_loop (length (batches S)) (batch_stub E) (enumerate 1 (batches S))))"
  by (simp add: program_reaches_loop[OF assms] executed_append executed_preamble fst_handle_cases
        fst_seq_cases executed_top_handler executed_finish split: option.splits)

lemma calls_program:
  assumes "import_pyodbc E = None" "connect_raises E = None" "cursor_raises E = None"
    and "read_file E = Inr S"
    and "c = Commit \<or> c = Rollback"
  shows "calls c (fst (program E)) =
         calls c (fst (run_loop (length (batches S)) (batch_stub E) (enumerate 1 (batches S))))"
  using assms(5)
  by (auto simp add: program_reaches_loop[OF assms(1-4)] calls_append calls_preamble fst_handle_cases
        fst_seq_cases calls_top_handler calls_finish split: option.splits)

lemma length_enumerate_filter:
  "length [f i b. (i, b) \<leftarrow> enumerate n xs, P b] = length (filter P xs)"
  by (induction xs arbitrary: n) simp_all

lemma no_rollback_raises:
  "\<forall>i. rollback_raises (stub i) = None \<Longrightarrow> \<forall>p\<in>set ps. rollback_raises (stub (fst p)) = None"
  by simp

section \<open>The run\<close>

text \<open>
  Claim C1, as amended. Take a run that reaches the loop, in which no \<open>rollback\<close> raises
  and both \<open>close\<close> calls succeed. If batch \<open>k\<close> passes the guard of line 44 and its
  \<open>try\<close> body raises \<open>e\<close> (from \<open>execute\<close>, the drain or \<open>commit\<close>), then the error text of
  \<open>e\<close> is printed for index \<open>k\<close> and \<open>rollback\<close> is called right after, the failed result
  for \<open>k\<close> is in the summary, every batch that passes the guard is attempted (the
  ones after \<open>k\<close> included), and the run prints the closing banner and ends normally.
  The summary has one result per batch that passes the guard, which is fewer than
  \<open>len(batches)\<close> when a batch starts with \<open>--\<close>.
\<close>

theorem failure_isolation:
  assumes start: "import_pyodbc E = None" "connect_raises E = None" "cursor_raises E = None"
      "read_file E = Inr S"
    and closing: "cursor_close_raises E = None" "conn_close_raises E = None"
    and rb: "\<forall>i. rollback_raises (batch_stub E i) = None"
    and k: "(k, b) \<in> set (enumerate 1 (batches S))" "\<not> skipped b"
    and fails: "snd (batch_body k b (batch_stub E k)) = Some e"
  shows "sublist [Print (BatchError k (str e)), Call Rollback] (fst (program E)) \<and>
         Failed k (str e) \<in> set (results (fst (program E))) \<and>
         attempted (fst (program E)) = [i. (i, c) \<leftarrow> enumerate 1 (batches S), \<not> skipped c] \<and>
         length (results (fst (program E))) = length [c \<leftarrow> batches S. \<not> skipped c] \<and>
         printed BannerCompleted (fst (program E)) \<and> snd (program E) = None"
proof -
  let ?n = "length (batches S)"
  let ?ps = "enumerate 1 (batches S)"
  let ?L = "run_loop ?n (batch_stub E) ?ps"
  have rb': "\<forall>p\<in>set ?ps. rollback_raises (batch_stub E (fst p)) = None"
    using rb by simp
  have ok: "snd ?L = None"
    using rb' by (rule run_loop_ok)
  have prog: "program E = (preamble ?n @ fst ?L @ [Call CursorClose, Call ConnClose, Print BannerCompleted], None)"
    using start closing ok by (rule program_completed)
  have "sublist [Print (BatchError k (str e)), Call Rollback] (fst (run_batch ?n k b (batch_stub E k)))"
    by (simp add: run_batch_failed[OF fails] sublist_Cons_right)
  moreover have "sublist (fst (run_batch ?n k b (batch_stub E k))) (fst ?L)"
    using rb' k by (rule run_loop_contains)
  moreover have "sublist (fst ?L) (fst (program E))"
    by (simp add: prog)
  ultimately have c1: "sublist [Print (BatchError k (str e)), Call Rollback] (fst (program E))"
    using sublist_order.order_trans by blast
  have res: "results (fst (program E)) = [batch_outcome i c (batch_stub E i). (i, c) \<leftarrow> ?ps, \<not> skipped c]"
    using results_program[OF start] results_run_loop[OF rb'] by simp
  have "batch_outcome k b (batch_stub E k) = Failed k (str e)"
    using fails by (simp add: batch_outcome_def)
  then have c2: "Failed k (str e) \<in> set (results (fst (program E)))"
    using k unfolding res by force
  have c3: "attempted (fst (program E)) = [i. (i, c) \<leftarrow> ?ps, \<not> skipped c]"
    using attempted_program[OF start] attempted_run_loop[OF rb'] by simp
  have c4: "length (results (fst (program E))) = length [c \<leftarrow> batches S. \<not> skipped c]"
    unfolding res by (rule length_enumerate_filter)
  have c5: "printed BannerCompleted (fst (program E))"
    by (simp add: prog printed_def)
  have c6: "snd (program E) = None"
    by (simp add: prog)
  from c1 c2 c3 c4 c5 c6 show ?thesis by blast
qed

lemmas text_defs = batches_def split_GO_def strip_def lstrip_def rstrip_def is_space_def

lemmas run_defs = program_def try_body_def finish_def run_batch_def batch_body_def
  batch_handler_def top_handler_def seq_def handle_def say_def invoke_def
  skipped_def startswith_def

lemmas stub_defs = stub_env_def fails_at_def succeeding_def boom_def

lemma batches_three:
  "batches script_three = [''CREATE TABLE t(x int);'', ''INSERT INTO t VALUES(1);'', ''SELECT 1'']"
  by (simp add: script_three_def text_defs)

lemma batches_with_note: "batches script_with_note = [''DROP TABLE t;'', ''-- done'']"
  by (simp add: script_with_note_def text_defs)

lemma batches_with_header:
  "batches script_with_header = [''-- fix'', ''UPDATE t SET x = 1'', ''SELECT 1'']"
  by (simp add: script_with_header_def text_defs)

theorem failure_isolation_witness:
  "(2, ''INSERT INTO t VALUES(1);'') \<in> set (enumerate 1 (batches script_three)) \<and>
   snd (batch_body 2 ''INSERT INTO t VALUES(1);'' (fails_at 2 2)) = Some boom \<and>
   Failed 2 (str boom) \<in> set (results (fst (program (stub_env script_three (fails_at 2))))) \<and>
   attempted (fst (program (stub_env script_three (fails_at 2)))) = [1, 2, 3] \<and>
   length (results (fst (program (stub_env script_three (fails_at 2))))) = 3 \<and>
   printed BannerCompleted (fst (program (stub_env script_three (fails_at 2))))"
proof -
  let ?E = "stub_env script_three (fails_at 2)"
  have h1: "import_pyodbc ?E = None" "connect_raises ?E = None" "cursor_raises ?E = None"
    "read_file ?E = Inr script_three" "cursor_close_raises ?E = None" "conn_close_raises ?E = None"
    by (simp_all add: stub_env_def)
  have h2: "\<forall>i. rollback_raises (batch_stub ?E i) = None"
    by (simp add: stub_defs)
  have h3: "(2, ''INSERT INTO t VALUES(1);'') \<in> set (enumerate 1 (batches script_three))"
    by (simp add: batches_three)
  have h4: "\<not> skipped ''INSERT INTO t VALUES(1);''"
    by (simp add: skipped_def startswith_def)
  have h5: "snd (batch_body 2 ''INSERT INTO t VALUES(1);'' (batch_stub ?E 2)) = Some boom"
    by (simp add: batch_body_eq stub_defs)
  from failure_isolation[OF h1 h2 h3 h4 h5] h3 h5
  show ?thesis by (simp add: batches_three skipped_def startswith_def stub_env_def)
qed

text \<open>
  Claim C1 as stated fails: the script has two batches, the first raises in \<open>execute\<close>,
  the second starts with \<open>--\<close>. The second is never attempted and the summary has one
  result, not two.
\<close>

theorem failure_isolation_counterexample:
  "execute_raises (batch_stub (stub_env script_with_note (fails_at 1)) 1) = Some boom \<and>
   length (batches script_with_note) = 2 \<and>
   results (fst (program (stub_env script_with_note (fails_at 1)))) = [Failed 1 (str boom)] \<and>
   attempted (fst (program (stub_env script_with_note (fails_at 1)))) = [1] \<and>
   length (results (fst (program (stub_env script_with_note (fails_at 1)))))
     \<noteq> length (batches script_with_note)"
  by (simp add: run_defs stub_defs batches_with_note)

text \<open>
  Claim C2 at the failing input: without the driver the exception of line 5 is handled
  by nobody. Nothing is printed, neither banner nor fall-back instructions.
\<close>

theorem missing_driver_unhandled:
  "program env_no_pyodbc = ([], Some (ImportError ''No module named pyodbc''))"
  by (simp add: env_no_pyodbc_def program_def stub_env_def)

text \<open>
  Claim C7 at the failing input: the connection opens, reading the file raises, the
  \<open>except Exception\<close> handler prints its instructions, and \<open>conn.close()\<close> is never
  called.
\<close>

theorem unreadable_file_leaks_connection:
  "program env_no_file =
     ([Print BannerRunning, Print Connecting, Call Connect, Call Cursor, Call (ReadFile SQL_FILE),
       Print (TopLevelError ''No such file or directory''), Print PortalInstructions,
       Print (SqlFileAt SQL_FILE)], None) \<and>
   calls Connect (fst (program env_no_file)) = 1 \<and>
   calls ConnClose (fst (program env_no_file)) = 0"
  by (simp add: env_no_file_def run_defs stub_defs calls_def)

lemma enumerate_guard_cong:
  "\<forall>b\<in>set xs. P b = Q b \<Longrightarrow>
   [f i b. (i, b) \<leftarrow> enumerate n xs, \<not> P b] = [f i b. (i, b) \<leftarrow> enumerate n xs, \<not> Q b]"
  by (induction xs arbitrary: n) simp_all

lemma enumerate_guard_filter:
  "[b. (i, b) \<leftarrow> enumerate n xs, \<not> P b] = [b \<leftarrow> xs. \<not> P b]"
  by (induction xs arbitrary: n) simp_all

lemma concat_if_filter:
  "[f x. x \<leftarrow> xs, f x \<noteq> []] = filter (\<lambda>b. b \<noteq> []) (map f xs)"
  by (induction xs) simp_all

lemma batches_filter_map: "batches S = filter (\<lambda>b. b \<noteq> []) (map strip (split_GO S))"
  unfolding batches_def by (rule concat_if_filter)

text \<open>
  Claim C4, as amended. The splitter discards only the fragments that are empty after
  trimming; a fragment that starts with \<open>--\<close> stays in the batch list, in source order,
  and is counted in \<open>len(batches)\<close>. The loop numbers the batches by their position in
  that list and skips the ones starting with \<open>--\<close> at run time: in a run that reaches
  the loop and in which no \<open>rollback\<close> raises, the indices attempted are the positions
  of the batches not starting with \<open>--\<close>, so a skipped batch consumes its index.
\<close>

theorem comments_keep_their_index:
  assumes start: "import_pyodbc E = None" "connect_raises E = None" "cursor_raises E = None"
      "read_file E = Inr S"
    and rb: "\<forall>i. rollback_raises (batch_stub E i) = None"
  shows "batches S = filter (\<lambda>b. b \<noteq> []) (map strip (split_GO S)) \<and>
         printed (ExecutingBatches (length (batches S))) (fst (program E)) \<and>
         attempted (fst (program E)) =
           [i. (i, b) \<leftarrow> enumerate 1 (batches S), \<not> startswith b ''--''] \<and>
         executed (fst (program E)) = [b \<leftarrow> batches S. \<not> startswith b ''--'']"
proof -
  let ?ps = "enumerate 1 (batches S)"
  have rb': "\<forall>p\<in>set ?ps. rollback_raises (batch_stub E (fst p)) = None"
    using rb by simp
  have guard: "\<forall>b\<in>set (batches S). skipped b = startswith b ''--''"
    by (simp add: skipped_batches)
  have c1: "printed (ExecutingBatches (length (batches S))) (fst (program E))"
    by (simp add: program_reaches_loop[OF start] printed_def preamble_def)
  have "attempted (fst (program E)) = [i. (i, b) \<leftarrow> ?ps, \<not> skipped b]"
    using attempted_program[OF start] attempted_run_loop[OF rb'] by simp
  also have "\<dots> = [i. (i, b) \<leftarrow> ?ps, \<not> startswith b ''--'']"
    using guard by (rule enumerate_guard_cong)
  finally have c2: "attempted (fst (program E)) = [i. (i, b) \<leftarrow> ?ps, \<not> startswith b ''--'']" .
  have "executed (fst (program E)) = [b. (i, b) \<leftarrow> ?ps, \<not> skipped b]"
    using executed_program[OF start] executed_run_loop[OF rb'] by simp
  also have "\<dots> = [b \<leftarrow> batches S. \<not> skipped b]"
    by (rule enumerate_guard_filter)
  also have "\<dots> = [b \<leftarrow> batches S. \<not> startswith b ''--'']"
    using guard by (simp cong: filter_cong)
  finally have c3: "executed (fst (program E)) = [b \<leftarrow> batches S. \<not> startswith b ''--'']" .
  from batches_filter_map c1 c2 c3 show ?thesis by blast
qed

theorem comments_keep_their_index_witness:
  "attempted (fst (program (stub_env script_with_note (\<lambda>i. succeeding)))) = [1] \<and>
   executed (fst (program (stub_env script_with_note (\<lambda>i. succeeding)))) = [''DROP TABLE t;''] \<and>
   printed (ExecutingBatches 2) (fst (program (stub_env script_with_note (\<lambda>i. succeeding))))"
proof -
  let ?E = "stub_env script_with_note (\<lambda>i. succeeding)"
  have h1: "import_pyodbc ?E = None" "connect_raises ?E = None" "cursor_raises ?E = None"
    "read_file ?E = Inr script_with_note"
    by (simp_all add: stub_env_def)
  have h2: "\<forall>i. rollback_raises (batch_stub ?E i) = None"
    by (simp add: stub_defs)
  from comments_keep_their_index[OF h1 h2]
  show ?thesis by (simp add: batches_with_note startswith_def numeral_2_eq_2)
qed

text \<open>
  Claim C4 as stated fails: a leading comment fragment is a batch of its own, and the
  two statements behind it run as numbers 2 and 3 of 3.
\<close>

theorem splitter_keeps_comments_counterexample:
  "''-- fix'' \<in> set (batches script_with_header) \<and> startswith ''-- fix'' ''--'' \<and>
   length (batches script_with_header) = 3 \<and>
   attempted (fst (program (stub_env script_with_header (\<lambda>i. succeeding)))) = [2, 3]"
  by (simp add: run_defs stub_defs batches_with_header)

text \<open>
  Claim C5, as amended. The drain stands inside the per-batch \<open>try\<close>: when \<open>execute\<close>
  succeeds and \<open>nextset\<close> raises \<open>e\<close>, the batch is reported as failed with the text of
  \<open>e\<close>, \<open>commit\<close> is not called, \<open>rollback\<close> is called once, and the batch ends as
  \<open>rollback\<close> does. When that \<open>rollback\<close> raises nothing the loop goes on to the next
  batch: the loop from this batch on is this batch's events followed by the whole
  loop over the batches behind it, which ends as that loop ends; so all that the
  rest of the loop attempts and records is attempted and recorded after this batch.
\<close>

theorem drain_error_is_batch_failure:
  assumes "execute_raises bb = None" "nextset_raises bb = Some e"
  shows "run_batch n i b bb =
           (Print (ExecutingBatch i n) # Call (Execute b) #
              replicate (Suc (more_sets bb)) (Call Nextset) @
              [Print (BatchError i (str e)), Call Rollback],
            rollback_raises bb) \<and>
         results (fst (run_batch n i b bb)) = [Failed i (str e)] \<and>
         calls Commit (fst (run_batch n i b bb)) = 0 \<and>
         calls Rollback (fst (run_batch n i b bb)) = 1 \<and>
         (rollback_raises bb = None \<and> stub i = bb \<and> \<not> skipped b \<longrightarrow>
            run_loop n stub ((i, b) # rest) =
              (fst (run_batch n i b bb) @ fst (run_loop n stub rest),
               snd (run_loop n stub rest)) \<and>
            attempted (fst (run_loop n stub ((i, b) # rest))) =
              i # attempted (fst (run_loop n stub rest)) \<and>
            results (fst (run_loop n stub ((i, b) # rest))) =
              Failed i (str e) # results (fst (run_loop n stub rest)))"
proof -
  have body: "batch_body i b bb =
      (Call (Execute b) # replicate (Suc (more_sets bb)) (Call Nextset), Some e)"
    using assms by (simp add: batch_body_eq)
  then have "snd (batch_body i b bb) = Some e" by simp
  from run_batch_failed[OF this] body
  have run: "run_batch n i b bb =
           (Print (ExecutingBatch i n) # Call (Execute b) #
              replicate (Suc (more_sets bb)) (Call Nextset) @
              [Print (BatchError i (str e)), Call Rollback],
            rollback_raises bb)" by simp
  have res: "results (fst (run_batch n i b bb)) = [Failed i (str e)]"
    by (simp add: run results_append results_nextsets)
  have com: "calls Commit (fst (run_batch n i b bb)) = 0"
    using calls_nextsets[of Commit "more_sets bb"] by (simp add: run calls_def)
  have rol: "calls Rollback (fst (run_batch n i b bb)) = 1"
    using calls_nextsets[of Rollback "more_sets bb"] by (simp add: run calls_def)
  have goes_on: "run_loop n stub ((i, b) # rest) =
              (fst (run_batch n i b bb) @ fst (run_loop n stub rest),
               snd (run_loop n stub rest)) \<and>
            attempted (fst (run_loop n stub ((i, b) # rest))) =
              i # attempted (fst (run_loop n stub rest)) \<and>
            results (fst (run_loop n stub ((i, b) # rest))) =
              Failed i (str e) # results (fst (run_loop n stub rest))"
    if quiet: "rollback_raises bb = None" and here: "stub i = bb" and passes: "\<not> skipped b"
  proof -
    have ok: "snd (run_batch n i b (stub i)) = None"
      using quiet here by (simp add: run_batch_no_raise)
    have step: "run_loop n stub ((i, b) # rest) =
        (fst (run_batch n i b bb) @ fst (run_loop n stub rest), snd (run_loop n stub rest))"
      using ok passes here by (simp add: seq_ok)
    have "attempted (fst (run_loop n stub ((i, b) # rest))) =
        i # attempted (fst (run_loop n stub rest))"
      by (simp add: step attempted_append attempted_run_batch del: run_loop.simps)
    moreover have "results (fst (run_loop n stub ((i, b) # rest))) =
        Failed i (str e) # results (fst (run_loop n stub rest))"
      by (simp add: step results_append res del: run_loop.simps)
    ultimately show ?thesis using step by blast
  qed
  from run res com rol goes_on show ?thesis by blast
qed

theorem drain_error_is_batch_failure_witness:
  "execute_raises drain_fails = None \<and> nextset_raises drain_fails = Some boom \<and>
   rollback_raises drain_fails = None \<and> drain_fails_at 1 1 = drain_fails \<and>
   \<not> skipped ''PRINT 1'' \<and>
   enumerate 1 (batches script_print) = [(1, ''PRINT 1''), (2, ''SELECT 1'')] \<and>
   run_batch 2 1 ''PRINT 1'' drain_fails =
     ([Print (ExecutingBatch 1 2), Call (Execute ''PRINT 1''), Call Nextset, Call Nextset,
       Print (BatchError 1 (str boom)), Call Rollback], None) \<and>
   attempted (fst (run_loop 2 (drain_fails_at 1) (enumerate 1 (batches script_print)))) = [1, 2] \<and>
   results (fst (run_loop 2 (drain_fails_at 1) (enumerate 1 (batches script_print)))) =
     [Failed 1 (str boom), Succeeded 2]"
proof -
  have h1: "execute_raises drain_fails = None"
    by (simp add: drain_fails_def succeeding_def)
  have h2: "nextset_raises drain_fails = Some boom"
    by (simp add: drain_fails_def succeeding_def)
  have h3: "more_sets drain_fails = 1" "rollback_raises drain_fails = None"
    by (simp_all add: drain_fails_def succeeding_def)
  have h4: "drain_fails_at 1 1 = drain_fails"
    by (simp add: drain_fails_at_def)
  have h5: "\<not> skipped ''PRINT 1''"
    by (simp add: skipped_def startswith_def)
  have h6: "enumerate 1 (batches script_print) = [(1, ''PRINT 1''), (2, ''SELECT 1'')]"
    by (simp add: script_print_def text_defs)
  have rest: "run_loop 2 (drain_fails_at 1) [(2, ''SELECT 1'')] =
      ([Print (ExecutingBatch 2 2), Call (Execute ''SELECT 1''), Call Nextset, Call Commit,
        Print (BatchCompleted 2)], None)"
    by (simp add: run_defs drain_fails_at_def succeeding_def)
  from drain_error_is_batch_failure[OF h1 h2, of 2 1 "''PRINT 1''" "drain_fails_at 1"
      "[(2, ''SELECT 1'')]"] h1 h2 h3 h4 h5 h6 rest
  show ?thesis by (simp add: numeral_2_eq_2 seq_def)
qed

text \<open>
  Claim C5 as stated fails: one batch, \<open>execute\<close> and \<open>commit\<close> would succeed, the drain
  raises; the batch is recorded as failed and rolled back.
\<close>

theorem drain_error_counterexample:
  "execute_raises drain_fails = None \<and> commit_raises drain_fails = None \<and>
   nextset_raises drain_fails = Some boom \<and>
   results (fst (program (stub_env ''PRINT 1'' (\<lambda>i. drain_fails)))) = [Failed 1 (str boom)] \<and>
   calls Rollback (fst (program (stub_env ''PRINT 1'' (\<lambda>i. drain_fails)))) = 1 \<and>
   calls Commit (fst (program (stub_env ''PRINT 1'' (\<lambda>i. drain_fails)))) = 0"
  by (simp add: run_defs stub_defs drain_fails_def text_defs calls_def)

lemma calls_run_batch_ok:
  "snd (batch_body i b bb) = None \<Longrightarrow>
   calls Commit (fst (run_batch n i b bb)) = 1 \<and> calls Rollback (fst (run_batch n i b bb)) = 0"
  using calls_nextsets[of Commit "more_sets bb"] calls_nextsets[of Rollback "more_sets bb"]
  by (simp add: run_batch_ok batch_body_eq calls_def split: option.splits)

lemma calls_run_batch_execute_raises:
  "execute_raises bb = Some e \<Longrightarrow>
   calls Commit (fst (run_batch n i b bb)) = 0 \<and> calls Rollback (fst (run_batch n i b bb)) = 1"
proof -
  assume a: "execute_raises bb = Some e"
  then have body: "batch_body i b bb = ([Call (Execute b)], Some e)"
    by (simp add: batch_body_eq)
  then have "snd (batch_body i b bb) = Some e" by simp
  from run_batch_failed[OF this] body show ?thesis by (simp add: calls_def)
qed

lemma enumerate_three: "enumerate (Suc 0) [b1, b2, b3] = [(1, b1), (2, b2), (3, b3)]"
  by (simp add: numeral_2_eq_2 numeral_3_eq_3)

text \<open>
  Claim C6, as amended. In a run that reaches the loop with three batches none of
  which starts with \<open>--\<close>, where \<open>execute\<close> raises \<open>e\<close> on the second, its \<open>rollback\<close>
  succeeds, and \<open>execute\<close>, the drain and \<open>commit\<close> succeed on the first and third, the
  summary is succeeded, failed with the text of \<open>e\<close>, succeeded; \<open>commit\<close> is called
  twice and \<open>rollback\<close> once.
\<close>

theorem second_of_three_fails:
  assumes start: "import_pyodbc E = None" "connect_raises E = None" "cursor_raises E = None"
      "read_file E = Inr S"
    and three: "batches S = [b1, b2, b3]"
    and plain: "\<forall>b\<in>set (batches S). \<not> startswith b ''--''"
    and second: "execute_raises (batch_stub E 2) = Some e" "rollback_raises (batch_stub E 2) = None"
    and others: "\<forall>i\<in>{1, 3}. execute_raises (batch_stub E i) = None \<and>
                   nextset_raises (batch_stub E i) = None \<and> commit_raises (batch_stub E i) = None"
  shows "results (fst (program E)) = [Succeeded 1, Failed 2 (str e), Succeeded 3] \<and>
         calls Commit (fst (program E)) = 2 \<and> calls Rollback (fst (program E)) = 1"
proof -
  let ?st = "batch_stub E"
  have ns: "\<not> skipped b1" "\<not> skipped b2" "\<not> skipped b3"
    using plain skipped_batches[of _ S] three by simp_all
  have ok1: "snd (batch_body 1 b1 (?st 1)) = None"
    using others by (simp add: batch_body_eq)
  have ok3: "snd (batch_body 3 b3 (?st 3)) = None"
    using others by (simp add: batch_body_eq)
  have bad2: "snd (batch_body 2 b2 (?st 2)) = Some e"
    using second by (simp add: batch_body_eq)
  have r1: "snd (run_batch 3 1 b1 (?st 1)) = None"
    using ok1 by (simp add: snd_run_batch)
  have r2: "snd (run_batch 3 2 b2 (?st 2)) = None"
    using second by (simp add: run_batch_no_raise)
  have r3: "snd (run_batch 3 3 b3 (?st 3)) = None"
    using ok3 by (simp add: snd_run_batch)
  have loop: "fst (run_loop 3 ?st (enumerate 1 (batches S))) =
      fst (run_batch 3 1 b1 (?st 1)) @ fst (run_batch 3 2 b2 (?st 2)) @ fst (run_batch 3 3 b3 (?st 3))"
    using ns r1 r2 r3 by (simp add: three enumerate_three seq_ok del: enumerate_simps)
  have len: "length (batches S) = 3" by (simp add: three)
  have "results (fst (program E)) = [Succeeded 1, Failed 2 (str e), Succeeded 3]"
    using ok1 bad2 ok3 loop
    by (simp add: results_program[OF start] len results_append results_run_batch batch_outcome_def)
  moreover have "calls Commit (fst (program E)) = 2"
    using calls_run_batch_ok[OF ok1, of 3] calls_run_batch_ok[OF ok3, of 3]
      calls_run_batch_execute_raises[OF second(1), of 3 2 b2] loop
    by (simp add: calls_program[OF start] len calls_append)
  moreover have "calls Rollback (fst (program E)) = 1"
    using calls_run_batch_ok[OF ok1, of 3] calls_run_batch_ok[OF ok3, of 3]
      calls_run_batch_execute_raises[OF second(1), of 3 2 b2] loop
    by (simp add: calls_program[OF start] len calls_append)
  ultimately show ?thesis by blast
qed

theorem second_of_three_fails_witness:
  "batches script_three = [''CREATE TABLE t(x int);'', ''INSERT INTO t VALUES(1);'', ''SELECT 1''] \<and>
   execute_raises (fails_at 2 2) = Some boom \<and>
   results (fst (program (stub_env script_three (fails_at 2)))) =
     [Succeeded 1, Failed 2 (str boom), Succeeded 3] \<and>
   calls Commit (fst (program (stub_env script_three (fails_at 2)))) = 2 \<and>
   calls Rollback (fst (program (stub_env script_three (fails_at 2)))) = 1"
proof -
  let ?E = "stub_env script_three (fails_at 2)"
  have h1: "import_pyodbc ?E = None" "connect_raises ?E = None" "cursor_raises ?E = None"
    "read_file ?E = Inr script_three"
    by (simp_all add: stub_env_def)
  have h2: "\<forall>b\<in>set (batches script_three). \<not> startswith b ''--''"
    by (simp add: batches_three startswith_def)
  have h3: "execute_raises (batch_stub ?E 2) = Some boom" "rollback_raises (batch_stub ?E 2) = None"
    by (simp_all add: stub_defs)
  have h4: "\<forall>i\<in>{1, 3}. execute_raises (batch_stub ?E i) = None \<and>
              nextset_raises (batch_stub ?E i) = None \<and> commit_raises (batch_stub ?E i) = None"
    by (simp add: stub_defs)
  from second_of_three_fails[OF h1 batches_three h2 h3 h4] batches_three h3(1)
  show ?thesis by (simp add: stub_env_def)
qed

text \<open>
  Claim C6 as stated fails when one of the three batches is a comment: with a leading
  \<open>--\<close> fragment the summary has two results and \<open>commit\<close> is called once.
\<close>

theorem second_of_three_counterexample:
  "length (batches script_with_header) = 3 \<and>
   execute_raises (fails_at 2 1) = None \<and> execute_raises (fails_at 2 2) = Some boom \<and>
   execute_raises (fails_at 2 3) = None \<and>
   results (fst (program (stub_env script_with_header (fails_at 2)))) =
     [Failed 2 (str boom), Succeeded 3] \<and>
   calls Commit (fst (program (stub_env script_with_header (fails_at 2)))) = 1 \<and>
   calls Rollback (fst (program (stub_env script_with_header (fails_at 2)))) = 1"
  by (simp add: run_defs stub_defs batches_with_header calls_def)

lemma seq_assoc: "seq (seq a b) c = seq a (seq b c)"
  by (cases a) (simp add: seq_def split: option.splits)

lemma seq_skip: "seq ([], None) b = b"
  by (simp add: seq_def)

lemma run_loop_append: "run_loop n stub (xs @ ys) = seq (run_loop n stub xs) (run_loop n stub ys)"
  by (induction xs) (auto simp: seq_skip seq_assoc)

lemma run_batch_events:
  "Print BannerCompleted \<notin> set (fst (run_batch n i b bb)) \<and>
   Call ConnClose \<notin> set (fst (run_batch n i b bb))"
  by (cases "snd (batch_body i b bb)")
     (auto simp: run_batch_ok run_batch_failed batch_body_eq split: option.splits)

lemma run_loop_events:
  "Print BannerCompleted \<notin> set (fst (run_loop n stub ps)) \<and>
   Call ConnClose \<notin> set (fst (run_loop n stub ps))"
  by (induction ps) (auto simp: fst_seq_cases run_batch_events split: if_splits)

lemma top_handler_events:
  "Print BannerCompleted \<notin> set (fst (top_handler e)) \<and>
   Call ConnClose \<notin> set (fst (top_handler e))"
  by (auto simp: top_handler_def say_def seq_def)

lemma preamble_events:
  "Print BannerCompleted \<notin> set (preamble n) \<and> Call ConnClose \<notin> set (preamble n)"
  by (auto simp: preamble_def)

text \<open>
  Claim C10. In a run that reaches the loop, let batch \<open>k\<close> pass the guard, let its
  \<open>try\<close> body raise \<open>e\<close> and its \<open>rollback\<close> raise \<open>e'\<close>, with no \<open>rollback\<close> raising
  before. Then the run ends with the error line of batch \<open>k\<close>, the \<open>rollback\<close> call and
  the fall-back instructions of the outer handler for \<open>e'\<close>; no batch after \<open>k\<close> is
  attempted, the closing banner is not printed, the connection is not closed, and
  the program ends without an unhandled exception.
\<close>

theorem rollback_failure_aborts_run:
  assumes start: "import_pyodbc E = None" "connect_raises E = None" "cursor_raises E = None"
      "read_file E = Inr S"
    and at: "batches S = pre @ b # post" "k = Suc (length pre)" "\<not> skipped b"
    and before: "\<forall>j<k. rollback_raises (batch_stub E j) = None"
    and fails: "snd (batch_body k b (batch_stub E k)) = Some e"
    and rb: "rollback_raises (batch_stub E k) = Some e'"
  shows "suffix ([Print (BatchError k (str e)), Call Rollback] @ fst (top_handler e'))
           (fst (program E)) \<and>
         attempted (fst (program E)) = [i. (i, c) \<leftarrow> enumerate 1 pre, \<not> skipped c] @ [k] \<and>
         \<not> printed BannerCompleted (fst (program E)) \<and>
         Call ConnClose \<notin> set (fst (program E)) \<and>
         snd (program E) = None"
proof -
  let ?n = "length (batches S)"
  let ?st = "batch_stub E"
  let ?Lpre = "run_loop ?n ?st (enumerate 1 pre)"
  let ?RB = "run_batch ?n k b (?st k)"
  have pre_rb: "\<forall>p\<in>set (enumerate 1 pre). rollback_raises (?st (fst p)) = None"
    using before at(2) by (auto simp: in_set_enumerate_eq)
  have pre_ok: "snd ?Lpre = None"
    using pre_rb by (rule run_loop_ok)
  have RB: "?RB = (Print (ExecutingBatch k ?n) # fst (batch_body k b (?st k)) @
                    [Print (BatchError k (str e)), Call Rollback], Some e')"
    using run_batch_failed[OF fails, of ?n] rb by simp
  have "enumerate 1 (batches S) = enumerate 1 pre @ (k, b) # enumerate (Suc k) post"
    by (simp add: at enumerate_append_eq)
  then have loop: "run_loop ?n ?st (enumerate 1 (batches S)) = (fst ?Lpre @ fst ?RB, Some e')"
    using pre_ok at(3) RB by (simp add: run_loop_append seq_ok seq_def)
  then have "snd (run_loop ?n ?st (enumerate 1 (batches S))) = Some e'" by simp
  from program_aborted[OF start this] loop
  have prog: "program E = (preamble ?n @ fst ?Lpre @ fst ?RB @ fst (top_handler e'), None)"
    by simp
  have c1: "suffix ([Print (BatchError k (str e)), Call Rollback] @ fst (top_handler e'))
           (fst (program E))"
    unfolding prog RB by (simp add: suffix_def)
  have "attempted (fst ?Lpre) = [i. (i, c) \<leftarrow> enumerate 1 pre, \<not> skipped c]"
    using pre_rb by (rule attempted_run_loop)
  then have c2: "attempted (fst (program E)) = [i. (i, c) \<leftarrow> enumerate 1 pre, \<not> skipped c] @ [k]"
    unfolding prog
    by (simp add: attempted_append attempted_preamble attempted_run_batch attempted_top_handler)
  have c3: "\<not> printed BannerCompleted (fst (program E))"
    unfolding prog printed_def
    by (simp add: preamble_events run_loop_events run_batch_events top_handler_events)
  have c4: "Call ConnClose \<notin> set (fst (program E))"
    unfolding prog
    by (simp add: preamble_events run_loop_events run_batch_events top_handler_events)
  have c5: "snd (program E) = None"
    by (simp add: prog)
  from c1 c2 c3 c4 c5 show ?thesis by blast
qed

theorem rollback_failure_aborts_run_witness:
  "batches script_three = [''CREATE TABLE t(x int);''] @ ''INSERT INTO t VALUES(1);'' # [''SELECT 1''] \<and>
   rollback_raises (rollback_fails_at 2 2) = Some (OtherException ''Communication link failure'') \<and>
   attempted (fst (program (stub_env script_three (rollback_fails_at 2)))) = [1, 2] \<and>
   \<not> printed BannerCompleted (fst (program (stub_env script_three (rollback_fails_at 2)))) \<and>
   Call ConnClose \<notin> set (fst (program (stub_env script_three (rollback_fails_at 2)))) \<and>
   suffix [Print (BatchError 2 (str boom)), Call Rollback,
           Print (TopLevelError ''Communication link failure''), Print PortalInstructions,
           Print (SqlFileAt SQL_FILE)]
     (fst (program (stub_env script_three (rollback_fails_at 2))))"
proof -
  let ?E = "stub_env script_three (rollback_fails_at 2)"
  let ?b = "''INSERT INTO t VALUES(1);''"
  have h1: "import_pyodbc ?E = None" "connect_raises ?E = None" "cursor_raises ?E = None"
    "read_file ?E = Inr script_three"
    by (simp_all add: stub_env_def)
  have h2: "batches script_three = [''CREATE TABLE t(x int);''] @ ?b # [''SELECT 1'']"
    by (simp add: batches_three)
  have h3: "(2::nat) = Suc (length [''CREATE TABLE t(x int);''])"
    by simp
  have h4: "\<not> skipped ?b"
    by (simp add: skipped_def startswith_def)
  have h5: "\<forall>j<2. rollback_raises (batch_stub ?E j) = None"
    by (simp add: stub_env_def rollback_fails_at_def succeeding_def)
  have h6: "snd (batch_body 2 ?b (batch_stub ?E 2)) = Some boom"
    by (simp add: batch_body_eq stub_env_def rollback_fails_at_def succeeding_def)
  have h7: "rollback_raises (batch_stub ?E 2) = Some (OtherException ''Communication link failure'')"
    by (simp add: stub_env_def rollback_fails_at_def succeeding_def)
  from rollback_failure_aborts_run[OF h1 h2 h3 h4 h5 h6 h7] h2 h7
  show ?thesis
    by (simp add: stub_env_def skipped_def startswith_def top_handler_def say_def seq_def)
qed

end
